theory Spec2Isabelle
  imports Main
begin

section \<open>Python values, exceptions and outcomes\<close>

text \<open>
  The module \<^verbatim>\<open>openscad_bindings/__init__.py\<close> builds a tree of \<^verbatim>\<open>Model\<close> nodes and
  serialises it to OpenSCAD source text through a \<^verbatim>\<open>CodeWriter\<close>. This theory embeds
  \<^verbatim>\<open>CodeWriter\<close>, \<^verbatim>\<open>format_parameter\<close>, \<^verbatim>\<open>Model\<close> with its serialisation, and the
  constructors that the statements below use. The call of the \<^verbatim>\<open>openscad\<close> program
  (\<^verbatim>\<open>run_openscad\<close>, \<^verbatim>\<open>scad_eval\<close>, \<^verbatim>\<open>render\<close>) and the matrix operator
  (\<^verbatim>\<open>__rmatmul__\<close>, \<^verbatim>\<open>Array\<close>) are left out.

  Three built-in exceptions can occur in the code that is modelled: \<^verbatim>\<open>k[0]\<close> on an
  empty string raises \<^verbatim>\<open>IndexError\<close>, \<^verbatim>\<open>"$" + v[1:]\<close> on a value that is not a
  string raises \<^verbatim>\<open>TypeError\<close>, and the iterator protocol signals exhaustion with
  \<^verbatim>\<open>StopIteration\<close>.
\<close>

datatype error = StopIteration | IndexError | TypeError

text \<open>
  A procedure that mutates an object either returns normally or raises; in both cases
  the mutations made so far stay. \<open>Done s\<close> is a normal return in state \<open>s\<close>,
  \<open>Raised e s\<close> is exception \<open>e\<close> leaving state \<open>s\<close>. A procedure whose loop need
  not end returns a \<open>'s res option\<close>, \<open>None\<close> standing for a run that never returns.
\<close>

datatype 's res = Done 's | Raised error 's

text \<open>
  Parameter values: Python \<^verbatim>\<open>bool\<close>, \<^verbatim>\<open>int\<close>, \<^verbatim>\<open>str\<close> and nested lists of
  integers. Floating-point numbers are outside the model. A string is a list of
  characters, one for each character of the Python string (ASCII text).
\<close>

datatype nested = Num int | Arr "nested list"

datatype pyval = PBool bool | PInt int | PStr string | PArr "nested list"

subsection \<open>\<^verbatim>\<open>str\<close> of a value\<close>

definition digit_char :: "nat \<Rightarrow> char" where
  "digit_char d = ''0123456789'' ! d"

fun digits :: "nat \<Rightarrow> string" where
  "digits n = (if n < 10 then [digit_char n] else digits (n div 10) @ [digit_char (n mod 10)])"

declare digits.simps [simp del]

definition str_int :: "int \<Rightarrow> string" where
  "str_int i = (if i < 0 then CHR ''-'' # digits (nat (- i)) else digits (nat i))"

text \<open>\<^verbatim>\<open>repr\<close> of a nested list of integers: \<^verbatim>\<open>[1, [2, 3]]\<close>.\<close>

fun repr_nested :: "nested \<Rightarrow> string"
  and repr_items :: "nested list \<Rightarrow> string" where
  "repr_nested (Num i) = str_int i"
| "repr_nested (Arr xs) = ''['' @ repr_items xs @ '']''"
| "repr_items [] = []"
| "repr_items [x] = repr_nested x"
| "repr_items (x # y # ys) = repr_nested x @ '', '' @ repr_items (y # ys)"

fun py_str :: "pyval \<Rightarrow> string" where
  "py_str (PBool b) = (if b then ''True'' else ''False'')"
| "py_str (PInt i) = str_int i"
| "py_str (PStr s) = s"
| "py_str (PArr xs) = ''['' @ repr_items xs @ '']''"

section \<open>\<^verbatim>\<open>CodeWriter\<close>\<close>

text \<open>
  The three attributes set by \<^verbatim>\<open>__init__\<close>. \<^verbatim>\<open>_source\<close> holds whatever was passed
  to \<^verbatim>\<open>write\<close>; only the \<^verbatim>\<open>source\<close> property turns the fragments into text.
\<close>

record writer =
  w_source :: "pyval list"
  w_buffer :: "string list"
  w_indent :: int

definition CodeWriter :: writer where
  "CodeWriter = \<lparr>w_source = [], w_buffer = [], w_indent = 0\<rparr>"

definition source :: "writer \<Rightarrow> string" where
  "source w = concat (map py_str (w_source w))"

definition write' :: "pyval \<Rightarrow> writer \<Rightarrow> writer" where
  "write' text w = w\<lparr>w_source := w_source w @ [text]\<rparr>"

text \<open>\<^verbatim>\<open>"    " * n\<close> is the empty string for \<open>n \<le> 0\<close>.\<close>

definition pad :: "int \<Rightarrow> string" where
  "pad n = concat (replicate (nat n) ''    '')"

definition fill :: "string \<Rightarrow> writer \<Rightarrow> writer" where
  "fill text w = write' (PStr (''\<newline>'' @ pad (w_indent w) @ text)) w"

definition buffer_writer :: "string \<Rightarrow> writer \<Rightarrow> writer" where
  "buffer_writer text w = w\<lparr>w_buffer := w_buffer w @ [text]\<rparr>"

definition buffer :: "writer \<Rightarrow> string \<times> writer" where
  "buffer w = (concat (w_buffer w), w\<lparr>w_buffer := []\<rparr>)"

subsection \<open>\<^verbatim>\<open>interleave\<close>\<close>

text \<open>
  \<^verbatim>\<open>seq = iter(seq)\<close> makes an iterator, an object with a state \<open>it\<close> of its own that
  only \<^verbatim>\<open>next\<close> advances: \<open>nxt it\<close> is the item or the exception of one call of
  \<^verbatim>\<open>next\<close>, with the new state. The callbacks \<open>inter\<close> and \<open>f\<close> act on the state
  \<open>s\<close> they close over (the writer, in this module).

  The \<^verbatim>\<open>for\<close> loop ends when \<^verbatim>\<open>next\<close> raises \<^verbatim>\<open>StopIteration\<close>; an iterator that
  never does keeps it running.
\<close>

partial_function (option) interleave_loop ::
  "('s \<Rightarrow> 's res) \<Rightarrow> ('a \<Rightarrow> 's \<Rightarrow> 's res) \<Rightarrow> ('it \<Rightarrow> (error + 'a) \<times> 'it) \<Rightarrow> 'it \<Rightarrow> 's
     \<Rightarrow> ('it \<times> 's res) option" where
  "interleave_loop inter' f nxt it s =
     (case nxt it of
        (Inl e, it') \<Rightarrow> if e = StopIteration then Some (it', Done s) else Some (it', Raised e s)
      | (Inr x, it') \<Rightarrow>
          (case inter' s of
             Raised e s' \<Rightarrow> Some (it', Raised e s')
           | Done s' \<Rightarrow>
               (case f x s' of
                  Raised e s'' \<Rightarrow> Some (it', Raised e s'')
                | Done s'' \<Rightarrow> interleave_loop inter' f nxt it' s'')))"

declare interleave_loop.simps [code]

text \<open>
  The \<^verbatim>\<open>try\<close> statement covers \<^verbatim>\<open>f(next(seq))\<close> as a whole, so a \<^verbatim>\<open>StopIteration\<close>
  raised by \<^verbatim>\<open>f\<close> itself is swallowed like the one of an empty sequence, and the
  \<^verbatim>\<open>else\<close> branch with the loop is then skipped.
\<close>

definition interleave ::
  "('s \<Rightarrow> 's res) \<Rightarrow> ('a \<Rightarrow> 's \<Rightarrow> 's res) \<Rightarrow> ('it \<Rightarrow> (error + 'a) \<times> 'it) \<Rightarrow> 'it \<Rightarrow> 's
     \<Rightarrow> ('it \<times> 's res) option" where
  "interleave inter' f nxt it s =
     (case nxt it of
        (Inl e, it') \<Rightarrow> if e = StopIteration then Some (it', Done s) else Some (it', Raised e s)
      | (Inr x, it') \<Rightarrow>
          (case f x s of
             Raised e s' \<Rightarrow> if e = StopIteration then Some (it', Done s') else Some (it', Raised e s')
           | Done s' \<Rightarrow> interleave_loop inter' f nxt it' s'))"

text \<open>The iterator of a Python list: the items not yet handed out.\<close>

definition list_next :: "'a list \<Rightarrow> (error + 'a) \<times> 'a list" where
  "list_next it = (case it of [] \<Rightarrow> (Inl StopIteration, []) | x # rest \<Rightarrow> (Inr x, rest))"

subsection \<open>The context managers \<^verbatim>\<open>block\<close> and \<^verbatim>\<open>delimit\<close>\<close>

text \<open>
  A \<^verbatim>\<open>@contextmanager\<close> generator runs up to its \<^verbatim>\<open>yield\<close> on entry and from
  there to its end on a normal exit. An exception of the body is thrown into the
  generator at the \<^verbatim>\<open>yield\<close>; neither generator has a \<^verbatim>\<open>try\<close>, so the code after
  the \<^verbatim>\<open>yield\<close> is skipped and the exception goes on to the caller.
\<close>

definition block :: "(writer \<Rightarrow> writer res option) \<Rightarrow> writer \<Rightarrow> writer res option" where
  "block body w =
     (let w1 = write' (PStr ''{'') w;
          w2 = w1\<lparr>w_indent := w_indent w1 + 1\<rparr>
      in case body w2 of
           None \<Rightarrow> None
         | Some (Raised e w3) \<Rightarrow> Some (Raised e w3)
         | Some (Done w3) \<Rightarrow> Some (Done (fill ''}'' (w3\<lparr>w_indent := w_indent w3 - 1\<rparr>))))"

definition delimit ::
  "pyval \<Rightarrow> pyval \<Rightarrow> (writer \<Rightarrow> writer res option) \<Rightarrow> writer \<Rightarrow> writer res option" where
  "delimit start end body w =
     (case body (write' start w) of
        None \<Rightarrow> None
      | Some (Raised e w1) \<Rightarrow> Some (Raised e w1)
      | Some (Done w1) \<Rightarrow> Some (Done (write' end w1)))"

section \<open>\<^verbatim>\<open>format_parameter\<close>\<close>

text \<open>
  \<^verbatim>\<open>"$" + v[1:]\<close>: only a string can be sliced and then appended to a string. An
  \<^verbatim>\<open>int\<close> or \<^verbatim>\<open>bool\<close> is not subscriptable and the slice of a list is a list; each
  is a \<^verbatim>\<open>TypeError\<close>.
\<close>

definition dollar_slice :: "pyval \<Rightarrow> error + string" where
  "dollar_slice v = (case v of PStr s \<Rightarrow> Inr (''$'' @ drop 1 s) | _ \<Rightarrow> Inl TypeError)"

text \<open>
  The function returns the value itself (not its text) when the key is \<^verbatim>\<open>None\<close> or
  empty, and the string \<^verbatim>\<open>f'{k}={v}'\<close> otherwise.
\<close>

definition format_parameter :: "string option \<times> pyval \<Rightarrow> error + pyval" where
  "format_parameter arg =
     (case arg of (k0, v0) \<Rightarrow>
        (let v1 = (if v0 = PBool True then PStr ''true'' else v0);
             v = (if v1 = PBool False then PStr ''false'' else v1);
             k = (case k0 of
                    None \<Rightarrow> Inr None
                  | Some name \<Rightarrow>
                      (case name of
                         [] \<Rightarrow> Inl IndexError
                       | c # _ \<Rightarrow>
                           (if c = CHR ''_'' then map_sum id Some (dollar_slice v)
                            else Inr (Some name))))
         in (case k of
               Inl e \<Rightarrow> Inl e
             | Inr None \<Rightarrow> Inr v
             | Inr (Some key) \<Rightarrow> Inr (if key \<noteq> [] then PStr (key @ ''='' @ py_str v) else v))))"

section \<open>\<^verbatim>\<open>Model\<close>\<close>

text \<open>
  \<^verbatim>\<open>args\<close> is the list of (key, value) pairs, the key \<^verbatim>\<open>None\<close> for a positional
  argument; \<^verbatim>\<open>operands\<close> is \<^verbatim>\<open>None\<close> or a list of nodes. The tree is built bottom-up
  from finished nodes, so it is finite and has no cycle.
\<close>

datatype model = Model (command_name: string) (args: "(string option \<times> pyval) list")
  (operands: "model list option")

text \<open>
  \<^verbatim>\<open>Model.__init__(command_name, *args, operands=None, **kwargs)\<close>: the keyword
  arguments are the items of a dictionary, in insertion order, none of them named
  \<^verbatim>\<open>operands\<close> or \<^verbatim>\<open>command_name\<close> (which \<^verbatim>\<open>__init__\<close> takes for itself).
\<close>

definition Model_init ::
  "string \<Rightarrow> pyval list \<Rightarrow> model list option \<Rightarrow> (string \<times> pyval) list \<Rightarrow> model" where
  "Model_init name pos ops kwargs =
     Model name (map (\<lambda>arg. (None, arg)) pos @ map (\<lambda>(k, v). (Some k, v)) kwargs) ops"

fun write_scad_code :: "model \<Rightarrow> writer \<Rightarrow> writer res option"
  and write_operands :: "model list \<Rightarrow> writer \<Rightarrow> writer res option" where
  "write_scad_code (Model name params ops) writer =
     (let w0 = fill name writer in
      case delimit (PStr ''('') (PStr '')'')
             (\<lambda>w. map_option snd
                (interleave
                   (\<lambda>w. Done (write' (PStr '', '') w))
                   (\<lambda>arg w. case format_parameter arg of
                                Inl e \<Rightarrow> Raised e w
                              | Inr text \<Rightarrow> Done (write' text w))
                   list_next params w))
             w0 of
        None \<Rightarrow> None
      | Some (Raised e w) \<Rightarrow> Some (Raised e w)
      | Some (Done w) \<Rightarrow>
          (case ops of
             None \<Rightarrow> Some (Done (write' (PStr '';'') w))
           | Some ms \<Rightarrow> block (\<lambda>w'. write_operands ms w') w))"
| "write_operands [] w = Some (Done w)"
| "write_operands (operand # rest) w =
     (case write_scad_code operand w of
        None \<Rightarrow> None
      | Some (Raised e w') \<Rightarrow> Some (Raised e w')
      | Some (Done w') \<Rightarrow> write_operands rest w')"

text \<open>\<^verbatim>\<open>Model.__str__\<close>: a new writer, the serialisation, and \<^verbatim>\<open>c.source[1:]\<close>.\<close>

definition str_model :: "model \<Rightarrow> (error + string) option" where
  "str_model m =
     (case write_scad_code m CodeWriter of
        None \<Rightarrow> None
      | Some (Raised e c) \<Rightarrow> Some (Inl e)
      | Some (Done c) \<Rightarrow> Some (Inr (drop 1 (source c))))"

subsection \<open>Operators and primitives\<close>

definition union' :: "model list \<Rightarrow> pyval list \<Rightarrow> (string \<times> pyval) list \<Rightarrow> model" where
  "union' models pos kwargs = Model_init ''union'' pos (Some models) kwargs"

definition intersection :: "model list \<Rightarrow> pyval list \<Rightarrow> (string \<times> pyval) list \<Rightarrow> model" where
  "intersection models pos kwargs = Model_init ''intersection'' pos (Some models) kwargs"

definition difference :: "model list \<Rightarrow> pyval list \<Rightarrow> (string \<times> pyval) list \<Rightarrow> model" where
  "difference models pos kwargs = Model_init ''difference'' pos (Some models) kwargs"

definition hull :: "model \<Rightarrow> pyval list \<Rightarrow> (string \<times> pyval) list \<Rightarrow> model" where
  "hull m pos kwargs = Model_init ''hull'' pos (Some [m]) kwargs"

definition minkowski :: "model list \<Rightarrow> pyval list \<Rightarrow> (string \<times> pyval) list \<Rightarrow> model" where
  "minkowski models pos kwargs = Model_init ''minkowski'' pos (Some models) kwargs"

definition cube :: "pyval list \<Rightarrow> (string \<times> pyval) list \<Rightarrow> model" where
  "cube pos kwargs = Model_init ''cube'' pos None kwargs"

definition sphere :: "pyval list \<Rightarrow> (string \<times> pyval) list \<Rightarrow> model" where
  "sphere pos kwargs = Model_init ''sphere'' pos None kwargs"

text \<open>\<^verbatim>\<open>Model.__add__\<close>: \<^verbatim>\<open>minkowski([self, other])\<close>.\<close>

definition add :: "model \<Rightarrow> model \<Rightarrow> model" where
  "add self other = minkowski [self, other] [] []"

section \<open>The node as an object with a state\<close>

text \<open>
  \<^verbatim>\<open>__init__\<close> stores \<^verbatim>\<open>operands\<close> as it is passed, and \<^verbatim>\<open>_write_scad_code\<close> runs
  \<^verbatim>\<open>for operand in self.operands\<close> over it. For a list, each loop starts at the
  first item and the list stays as it is. A one-shot iterator (a generator, or
  \<^verbatim>\<open>iter\<close> of a list) hands every item out once: the loop leaves it with the items it
  did not reach. \<^verbatim>\<open>args\<close> is always a list that \<^verbatim>\<open>__init__\<close> builds.

  The datatype \<open>model\<close> above has list operands only and cannot tell what a
  serialisation does to the node. Here the operands carry their kind, and the
  serialisation returns the node as it leaves it, next to the writer. Every node object
  is taken to occur once in the tree.
\<close>

datatype iterable = PyList | PyIterator

datatype node = Node (node_name: string) (node_args: "(string option \<times> pyval) list")
  (node_operands: "(iterable \<times> node list) option")

text \<open>
  The same method as \<open>write_scad_code\<close>, with \<^verbatim>\<open>with writer.block():\<close> written out:
  the code before the \<^verbatim>\<open>yield\<close>, the loop, and the code after the \<^verbatim>\<open>yield\<close> when the
  loop has not raised. The loop returns the operands it has visited (as they are
  now), those it has not reached, and the writer.
\<close>

fun write_scad_code_node :: "node \<Rightarrow> writer \<Rightarrow> (node \<times> writer res) option"
  and write_operands_node :: "node list \<Rightarrow> writer \<Rightarrow> (node list \<times> node list \<times> writer res) option" where
  "write_scad_code_node (Node name params ops) writer =
     (let w0 = fill name writer in
      case delimit (PStr ''('') (PStr '')'')
             (\<lambda>w. map_option snd
                (interleave
                   (\<lambda>w. Done (write' (PStr '', '') w))
                   (\<lambda>arg w. case format_parameter arg of
                                Inl e \<Rightarrow> Raised e w
                              | Inr text \<Rightarrow> Done (write' text w))
                   list_next params w))
             w0 of
        None \<Rightarrow> None
      | Some (Raised e w) \<Rightarrow> Some (Node name params ops, Raised e w)
      | Some (Done w) \<Rightarrow>
          (case ops of
             None \<Rightarrow> Some (Node name params None, Done (write' (PStr '';'') w))
           | Some (kind, items) \<Rightarrow>
               (let w1 = write' (PStr ''{'') w;
                    w2 = w1\<lparr>w_indent := w_indent w1 + 1\<rparr>
                in case write_operands_node items w2 of
                     None \<Rightarrow> None
                   | Some (visited, rest, r) \<Rightarrow>
                       Some (Node name params
                               (Some (kind, case kind of PyList \<Rightarrow> visited @ rest | PyIterator \<Rightarrow> rest)),
                             case r of
                               Raised e w3 \<Rightarrow> Raised e w3
                             | Done w3 \<Rightarrow> Done (fill ''}'' (w3\<lparr>w_indent := w_indent w3 - 1\<rparr>))))))"
| "write_operands_node [] w = Some ([], [], Done w)"
| "write_operands_node (operand # rest) w =
     (case write_scad_code_node operand w of
        None \<Rightarrow> None
      | Some (operand', Raised e w') \<Rightarrow> Some ([operand'], rest, Raised e w')
      | Some (operand', Done w') \<Rightarrow>
          (case write_operands_node rest w' of
             None \<Rightarrow> None
           | Some (visited, rest', r) \<Rightarrow> Some (operand' # visited, rest', r)))"

text \<open>\<^verbatim>\<open>Model.__str__\<close> again, returning the node as well.\<close>

definition str_node :: "node \<Rightarrow> (node \<times> (error + string)) option" where
  "str_node n =
     (case write_scad_code_node n CodeWriter of
        None \<Rightarrow> None
      | Some (n', Raised e c) \<Rightarrow> Some (n', Inl e)
      | Some (n', Done c) \<Rightarrow> Some (n', Inr (drop 1 (source c))))"

section \<open>Auxiliary definitions for the statements\<close>

text \<open>
  Nothing in this section is code of the module. It names what the theorems below talk
  about: two conversions of a node one after the other, a record of the calls that
  \<^verbatim>\<open>interleave\<close> makes, and the fragments and the text of a node as functions of the
  tree.
\<close>

subsection \<open>Two conversions in a row\<close>

text \<open>
  \<^verbatim>\<open>first = str(node); second = str(node)\<close>: the second conversion finds the node as
  the first has left it, and makes a new writer of its own. \<open>node_of m\<close> is the tree
  \<open>m\<close> with every operand sequence a list; \<open>model_of n\<close> is the node \<open>n\<close> with the
  items that its operands still hold, in order, whatever their kind.
\<close>

definition str_twice :: "node \<Rightarrow> (node \<times> (error + string) \<times> (error + string)) option" where
  "str_twice n =
     (case str_node n of
        None \<Rightarrow> None
      | Some (n1, first) \<Rightarrow>
          (case str_node n1 of
             None \<Rightarrow> None
           | Some (n2, second) \<Rightarrow> Some (n2, first, second)))"

fun node_of :: "model \<Rightarrow> node"
  and nodes_of :: "model list \<Rightarrow> node list" where
  "node_of (Model name params ops) =
     Node name params (case ops of None \<Rightarrow> None | Some ms \<Rightarrow> Some (PyList, nodes_of ms))"
| "nodes_of [] = []"
| "nodes_of (m # ms) = node_of m # nodes_of ms"

fun model_of :: "node \<Rightarrow> model"
  and models_of :: "node list \<Rightarrow> model list" where
  "model_of (Node name params ops) =
     Model name params (case ops of None \<Rightarrow> None | Some (kind, items) \<Rightarrow> Some (models_of items))"
| "models_of [] = []"
| "models_of (n # ns) = model_of n # models_of ns"

subsection \<open>A record of calls\<close>

text \<open>
  The callbacks \<open>log_inter\<close> and \<open>log_f\<close> do nothing but append their own call to
  a list, so the final list is the sequence of calls made. \<open>counted_next\<close> is the
  iterator of a list that also counts the calls of \<^verbatim>\<open>next\<close>.
\<close>

datatype 'a call = Emit 'a | Separator

definition log_inter :: "'a call list \<Rightarrow> 'a call list res" where
  "log_inter calls = Done (calls @ [Separator])"

definition log_f :: "'a \<Rightarrow> 'a call list \<Rightarrow> 'a call list res" where
  "log_f x calls = Done (calls @ [Emit x])"

definition counted_next :: "'a list \<times> nat \<Rightarrow> (error + 'a) \<times> 'a list \<times> nat" where
  "counted_next it = (case it of (rest, n) \<Rightarrow> (fst (list_next rest), snd (list_next rest), Suc n))"

text \<open>
  \<open>interspersed sep xs\<close> is \<open>xs\<close> with \<open>sep\<close> between neighbours.
\<close>

fun interspersed :: "'a \<Rightarrow> 'a list \<Rightarrow> 'a list" where
  "interspersed sep [] = []"
| "interspersed sep [x] = [x]"
| "interspersed sep (x # y # ys) = x # sep # interspersed sep (y # ys)"

text \<open>
  Running a sequence of calls in order, up to the first exception.
\<close>

definition run_call :: "('s \<Rightarrow> 's res) \<Rightarrow> ('a \<Rightarrow> 's \<Rightarrow> 's res) \<Rightarrow> 'a call \<Rightarrow> 's \<Rightarrow> 's res" where
  "run_call inter' f c s = (case c of Emit x \<Rightarrow> f x s | Separator \<Rightarrow> inter' s)"

fun run_calls :: "('s \<Rightarrow> 's res) \<Rightarrow> ('a \<Rightarrow> 's \<Rightarrow> 's res) \<Rightarrow> 'a call list \<Rightarrow> 's \<Rightarrow> 's res" where
  "run_calls inter' f [] s = Done s"
| "run_calls inter' f (c # cs) s =
     (case run_call inter' f c s of
        Raised e s' \<Rightarrow> Raised e s'
      | Done s' \<Rightarrow> run_calls inter' f cs s')"

subsection \<open>Fragments and text of a node\<close>

text \<open>
  \<open>formats p\<close>: \<^verbatim>\<open>format_parameter\<close> returns for \<open>p\<close>; \<open>fragment p\<close> is what it
  returns then. \<open>params_ok m\<close>: every parameter in the tree \<open>m\<close> formats.
\<close>

definition formats :: "string option \<times> pyval \<Rightarrow> bool" where
  "formats p = (case format_parameter p of Inl e \<Rightarrow> False | Inr text \<Rightarrow> True)"

definition fragment :: "string option \<times> pyval \<Rightarrow> pyval" where
  "fragment p = (case format_parameter p of Inl e \<Rightarrow> PStr [] | Inr text \<Rightarrow> text)"

fun params_ok :: "model \<Rightarrow> bool"
  and operands_ok :: "model list \<Rightarrow> bool" where
  "params_ok (Model name ps ops) =
     (list_all formats ps \<and> (case ops of None \<Rightarrow> True | Some ms \<Rightarrow> operands_ok ms))"
| "operands_ok [] = True"
| "operands_ok (m # ms) = (params_ok m \<and> operands_ok ms)"

text \<open>
  The fragments that a node written at indent depth \<open>d\<close> appends to \<^verbatim>\<open>_source\<close>.
\<close>

fun scad_frags :: "int \<Rightarrow> model \<Rightarrow> pyval list"
  and operands_frags :: "int \<Rightarrow> model list \<Rightarrow> pyval list" where
  "scad_frags d (Model name ps ops) =
     [PStr (''\<newline>'' @ pad d @ name), PStr ''(''] @ interspersed (PStr '', '') (map fragment ps)
     @ [PStr '')'']
     @ (case ops of
          None \<Rightarrow> [PStr '';'']
        | Some ms \<Rightarrow> [PStr ''{''] @ operands_frags (d + 1) ms @ [PStr (''\<newline>'' @ pad d @ ''}'')])"
| "operands_frags d [] = []"
| "operands_frags d (m # ms) = scad_frags d m @ operands_frags d ms"

text \<open>
  The text of the parameter list, and the text that the serialisation of \<open>m\<close> alone
  leaves in a new writer whose depth is \<open>d\<close>.
\<close>

definition params_text :: "(string option \<times> pyval) list \<Rightarrow> string" where
  "params_text ps = concat (map py_str (interspersed (PStr '', '') (map fragment ps)))"

definition emitted :: "int \<Rightarrow> model \<Rightarrow> string" where
  "emitted d m =
     (case write_scad_code m (CodeWriter\<lparr>w_indent := d\<rparr>) of
        Some (Done c) \<Rightarrow> source c
      | _ \<Rightarrow> [])"

text \<open>
  The two callbacks that \<^verbatim>\<open>_write_scad_code\<close> passes to \<^verbatim>\<open>interleave\<close>.
\<close>

abbreviation (input) SEP :: "writer \<Rightarrow> writer res" where
  "SEP \<equiv> (\<lambda>w. Done (write' (PStr '', '') w))"

abbreviation (input) FMT :: "string option \<times> pyval \<Rightarrow> writer \<Rightarrow> writer res" where
  "FMT \<equiv> (\<lambda>arg w. case format_parameter arg of Inl e \<Rightarrow> Raised e w | Inr text \<Rightarrow> Done (write' text w))"

section \<open>The list iterator and the loop\<close>

lemma list_next_simps:
  "list_next [] = (Inl StopIteration, [])" "list_next (x # xs) = (Inr x, xs)"
  by (simp_all add: list_next_def)

lemma interspersed_Cons: "interspersed sep (x # xs) = x # concat (map (\<lambda>y. [sep, y]) xs)"
  by (induction xs arbitrary: x) simp_all

lemma logged_loop:
  "interleave_loop log_inter log_f counted_next (xs, n) calls =
     Some (([], Suc (n + length xs)), Done (calls @ concat (map (\<lambda>x. [Separator, Emit x]) xs)))"
proof (induction xs arbitrary: n calls)
  case Nil
  show ?case
    by (subst interleave_loop.simps) (simp add: counted_next_def list_next_def)
next
  case (Cons x xs)
  show ?case
    apply (subst interleave_loop.simps)
    apply (simp add: counted_next_def list_next_def log_inter_def log_f_def)
    apply (simp add: Cons.IH)
    done
qed

lemma count_separators: "count_list (concat (map (\<lambda>x. [Separator, Emit x]) xs)) Separator = length xs"
  by (induction xs) simp_all

lemma loop_runs_calls:
  "\<exists>it. interleave_loop inter' f list_next xs s =
     Some (it, run_calls inter' f (concat (map (\<lambda>x. [Separator, Emit x]) xs)) s)"
proof (induction xs arbitrary: s)
  case Nil
  show ?case
    by (subst interleave_loop.simps) (simp add: list_next_simps)
next
  case (Cons x xs)
  show ?case
    by (subst interleave_loop.simps)
      (simp add: list_next_simps run_call_def Cons.IH split: res.splits)
qed

text \<open>
  C3: for a sequence of \<open>N\<close> items, \<^verbatim>\<open>interleave\<close> calls \<^verbatim>\<open>f\<close> on item 1, then the
  separator, \<^verbatim>\<open>f\<close> on item 2, and so on up to item \<open>N\<close>: no separator before the
  first item, after the last, or at all for \<open>N \<le> 1\<close>, hence \<open>N - 1\<close> separator calls
  (0 for the empty sequence). The iterator is advanced by \<^verbatim>\<open>next\<close> only, \<open>N + 1\<close>
  times, the last call being the one that finds it exhausted. For arbitrary callbacks
  the run is that same sequence of calls, cut at the first exception, as long as
  \<^verbatim>\<open>f\<close> does not raise \<^verbatim>\<open>StopIteration\<close> (which the \<^verbatim>\<open>try\<close> would swallow).
\<close>

theorem interleave_calls:
  "interleave log_inter log_f counted_next (seq, 0) [] =
     Some (([], Suc (length seq)), Done (interspersed Separator (map Emit seq)))
   \<and> count_list (interspersed Separator (map Emit seq)) Separator = length seq - 1
   \<and> ((\<forall>x s s'. f x s \<noteq> Raised StopIteration s') \<longrightarrow>
        map_option snd (interleave inter' f list_next seq s) =
          Some (run_calls inter' f (interspersed Separator (map Emit seq)) s))"
proof (cases seq)
  case Nil
  then show ?thesis
    by (simp add: interleave_def counted_next_def list_next_simps)
next
  case (Cons x xs)
  have "interleave log_inter log_f counted_next (x # xs, 0) [] =
     Some (([], Suc (length (x # xs))), Done (Emit x # concat (map (\<lambda>x. [Separator, Emit x]) xs)))"
    using logged_loop [of xs 1 "[Emit x]"]
    by (simp add: interleave_def counted_next_def list_next_simps log_f_def)
  moreover have "map_option snd (interleave inter' f list_next (x # xs) s) =
          Some (run_calls inter' f (Emit x # concat (map (\<lambda>x. [Separator, Emit x]) xs)) s)"
    if "\<forall>x s s'. f x s \<noteq> Raised StopIteration s'"
  proof (cases "f x s")
    case (Done s')
    then show ?thesis
      using loop_runs_calls [of inter' f xs s']
      by (auto simp: interleave_def list_next_simps run_call_def)
  next
    case (Raised e s')
    with that have "e \<noteq> StopIteration"
      by auto
    with Raised show ?thesis
      by (simp add: interleave_def list_next_simps run_call_def)
  qed
  ultimately show ?thesis
    using Cons count_separators [of xs]
    by (simp add: interspersed_Cons map_concat comp_def)
qed

text \<open>
  C3 at the sequence \<^verbatim>\<open>[1, 2, 3]\<close> with the recording callbacks, which never raise.
\<close>

theorem interleave_calls_witness:
  "(\<forall>x s s'. log_f x s \<noteq> Raised StopIteration (s' :: nat call list))
   \<and> map_option snd (interleave log_inter log_f list_next [1, 2, 3 :: nat] []) =
       Some (Done [Emit 1, Separator, Emit 2, Separator, Emit 3])"
proof -
  have never: "\<forall>x s s'. log_f x s \<noteq> Raised StopIteration (s' :: nat call list)"
    by (simp add: log_f_def)
  from interleave_calls [where f = log_f and inter' = log_inter and seq = "[1, 2, 3 :: nat]" and s = "[]"] never
  show ?thesis
    by (simp add: run_call_def log_f_def log_inter_def)
qed

section \<open>Parameter formatting\<close>

text \<open>
  C1, as stated, at the parameter \<^verbatim>\<open>('_fn', 'xfn')\<close>: the claim gives \<^verbatim>\<open>$fn\<close>, that is
  \<^verbatim>\<open>'$' + value[1:]\<close> and nothing else. The function returns \<^verbatim>\<open>$fn=xfn\<close>: the
  rewritten key still goes through \<^verbatim>\<open>f'{k}={v}'\<close>.
\<close>

theorem sigil_parameter_counterexample:
  "format_parameter (Some ''_fn'', PStr ''xfn'') = Inr (PStr ''$fn=xfn'')
   \<and> format_parameter (Some ''_fn'', PStr ''xfn'') \<noteq> Inr (PStr (''$'' @ drop 1 ''xfn''))"
  by (simp add: format_parameter_def dollar_slice_def)

text \<open>
  C1, amended: for a parameter whose name begins with \<^verbatim>\<open>_\<close> and whose value is a string,
  \<^verbatim>\<open>format_parameter\<close> returns \<^verbatim>\<open>$\<close>, the value from index 1 onward, \<^verbatim>\<open>=\<close> and the
  whole value. The name of the parameter does not occur in the result, which is still a
  key=value pair. A boolean is a string by then: \<^verbatim>\<open>true\<close> gives \<^verbatim>\<open>$rue=true\<close>.
\<close>

theorem sigil_parameter:
  "format_parameter (Some (CHR ''_'' # name), PStr s) = Inr (PStr (''$'' @ drop 1 s @ ''='' @ s))
   \<and> format_parameter (Some (CHR ''_'' # name), PBool True) = Inr (PStr ''$rue=true'')
   \<and> format_parameter (Some (CHR ''_'' # name), PBool False) = Inr (PStr ''$alse=false'')"
  by (simp add: format_parameter_def dollar_slice_def)

text \<open>
  C6: a boolean value is rendered as \<^verbatim>\<open>true\<close> or \<^verbatim>\<open>false\<close>, alone for a positional
  parameter and after \<^verbatim>\<open>key=\<close> for a named one, whatever the (non-empty) name; and
  \<^verbatim>\<open>cube(10, center=True)\<close> is converted to \<^verbatim>\<open>cube(10, center=true);\<close>.
\<close>

theorem boolean_parameter:
  "format_parameter (None, PBool b) = Inr (PStr (if b then ''true'' else ''false''))
   \<and> format_parameter (Some (c # cs), PBool b) =
       Inr (PStr ((if c = CHR ''_'' then ''$'' @ drop 1 (if b then ''true'' else ''false'') else c # cs)
                  @ ''='' @ (if b then ''true'' else ''false'')))
   \<and> str_model (cube [PInt 10] [(''center'', PBool True)]) = Some (Inr ''cube(10, center=true);'')"
proof -
  have "str_model (cube [PInt 10] [(''center'', PBool True)]) = Some (Inr ''cube(10, center=true);'')"
    by code_simp
  then show ?thesis
    by (cases b) (simp_all add: format_parameter_def dollar_slice_def)
qed

text \<open>
  C10: \<^verbatim>\<open>format_parameter\<close> returns a result when the name is \<^verbatim>\<open>None\<close>, when it is
  non-empty and does not begin with \<^verbatim>\<open>_\<close>, and when it begins with \<^verbatim>\<open>_\<close> and the value
  is a string or a boolean. It raises \<^verbatim>\<open>IndexError\<close> for the empty name, and
  \<^verbatim>\<open>TypeError\<close> for a name beginning with \<^verbatim>\<open>_\<close> whose value is an integer (which
  cannot be sliced) or a list (whose slice cannot be appended to \<^verbatim>\<open>"$"\<close>).
\<close>

theorem format_parameter_total:
  "format_parameter (None, v) =
     Inr (case v of PBool b \<Rightarrow> PStr (if b then ''true'' else ''false'') | _ \<Rightarrow> v)
   \<and> (c \<noteq> CHR ''_'' \<longrightarrow>
        (\<exists>text. format_parameter (Some (c # cs), v) = Inr (PStr ((c # cs) @ ''='' @ text))))
   \<and> (\<exists>text. format_parameter (Some (CHR ''_'' # cs), PStr s) = Inr (PStr text))
   \<and> (\<exists>text. format_parameter (Some (CHR ''_'' # cs), PBool b) = Inr (PStr text))
   \<and> format_parameter (Some [], v) = Inl IndexError
   \<and> format_parameter (Some (CHR ''_'' # cs), PInt i) = Inl TypeError
   \<and> format_parameter (Some (CHR ''_'' # cs), PArr xs) = Inl TypeError"
  by (cases v; cases b) (simp_all add: format_parameter_def dollar_slice_def Let_def)

text \<open>C10 at the parameter \<^verbatim>\<open>('r', 5)\<close>, whose name does not begin with \<^verbatim>\<open>_\<close>.\<close>

theorem format_parameter_total_witness:
  "CHR ''r'' \<noteq> CHR ''_''
   \<and> (\<exists>text. format_parameter (Some ''r'', PInt 5) = Inr (PStr (''r='' @ text)))"
  using format_parameter_total [where v = "PInt 5" and c = "CHR ''r''" and cs = "[]"]
  by simp

section \<open>Combinators\<close>

text \<open>
  C9: \<^verbatim>\<open>a + b\<close> is the node with command name \<^verbatim>\<open>minkowski\<close>, no parameters, and the
  operand list \<^verbatim>\<open>[a, b]\<close>.
\<close>

theorem add_is_minkowski:
  "add a b = Model ''minkowski'' [] (Some [a, b])
   \<and> command_name (add a b) = ''minkowski'' \<and> operands (add a b) = Some [a, b]"
  by (simp add: add_def minkowski_def Model_init_def)

section \<open>Serialisation of a tree\<close>

subsection \<open>The parameter list\<close>

lemma format_parameter_no_stop: "format_parameter p \<noteq> Inl StopIteration"
  by (cases p) (auto simp: format_parameter_def dollar_slice_def Let_def
      split: option.splits list.splits pyval.splits sum.splits if_splits)

lemma formats_iff: "formats p \<longleftrightarrow> (\<exists>frag. format_parameter p = Inr frag)"
  by (cases "format_parameter p") (simp_all add: formats_def)

lemma set_interspersed: "set (interspersed sep xs) \<subseteq> insert sep (set xs)"
  by (induction sep xs rule: interspersed.induct) auto

lemma set_pad: "set (pad d) \<subseteq> {CHR '' ''}"
  by (induction "nat d" arbitrary: d) (auto simp: pad_def)

lemma formats_all: "map format_parameter ps = map Inr frags \<Longrightarrow> list_all formats ps \<and> map fragment ps = frags"
proof (induction ps arbitrary: frags)
  case Nil
  then show ?case by simp
next
  case (Cons p ps)
  then obtain frag rest where frags: "frags = frag # rest" and p: "format_parameter p = Inr frag"
    and ps: "map format_parameter ps = map Inr rest"
    by (cases frags) auto
  from Cons.IH [OF ps] p frags show ?case
    by (simp add: fragment_def formats_iff)
qed

lemma loop_list_ok:
  "list_all formats ps \<Longrightarrow>
   interleave_loop SEP FMT list_next ps w =
     Some ([], Done (w\<lparr>w_source := w_source w @ concat (map (\<lambda>p. [PStr '', '', fragment p]) ps)\<rparr>))"
proof (induction ps arbitrary: w)
  case Nil
  show ?case by (subst interleave_loop.simps) (simp add: list_next_simps)
next
  case (Cons p ps)
  from Cons.prems have "formats p" and ps: "list_all formats ps"
    by simp_all
  then obtain frag where p: "format_parameter p = Inr frag"
    using formats_iff by blast
  show ?case
    apply (subst interleave_loop.simps)
    apply (simp add: list_next_simps p)
    apply (simp add: Cons.IH [OF ps])
    apply (simp add: write'_def fragment_def p)
    done
qed

lemma loop_list_fail:
  "\<not> list_all formats ps \<Longrightarrow>
   \<exists>it e w'. interleave_loop SEP FMT list_next ps w = Some (it, Raised e w')"
proof (induction ps arbitrary: w)
  case Nil
  then show ?case by simp
next
  case (Cons p ps)
  show ?case
  proof (cases "format_parameter p")
    case (Inl e)
    show ?thesis
      by (subst interleave_loop.simps) (simp add: list_next_simps Inl)
  next
    case (Inr frag)
    then have "formats p"
      using formats_iff by blast
    with Cons.prems have "\<not> list_all formats ps"
      by simp
    from Cons.IH [OF this] show ?thesis
      by (subst interleave_loop.simps) (simp add: list_next_simps Inr)
  qed
qed

lemma interleave_ok:
  "list_all formats ps \<Longrightarrow>
   map_option snd (interleave SEP FMT list_next ps w) =
     Some (Done (w\<lparr>w_source := w_source w @ interspersed (PStr '', '') (map fragment ps)\<rparr>))"
proof (cases ps)
  case Nil
  then show ?thesis by (simp add: interleave_def list_next_def)
next
  case (Cons p ps')
  assume "list_all formats ps"
  with Cons have "formats p" and ps: "list_all formats ps'"
    by simp_all
  then obtain frag where p: "format_parameter p = Inr frag"
    using formats_iff by blast
  have "fragment p = frag"
    by (simp add: fragment_def p)
  then show ?thesis
    by (simp add: Cons interleave_def list_next_simps p loop_list_ok [OF ps] interspersed_Cons)
      (simp add: write'_def comp_def)
qed

lemma interleave_fail:
  assumes "\<not> list_all formats ps"
  shows "\<exists>e w'. map_option snd (interleave SEP FMT list_next ps w) = Some (Raised e w')"
proof (cases ps)
  case Nil
  with assms show ?thesis by simp
next
  case (Cons p ps')
  show ?thesis
  proof (cases "format_parameter p")
    case (Inl e)
    then have "e \<noteq> StopIteration"
      using format_parameter_no_stop [of p] by auto
    then show ?thesis
      by (simp add: Cons interleave_def list_next_simps Inl)
  next
    case (Inr frag)
    then have "formats p"
      using formats_iff by blast
    with assms Cons have "\<not> list_all formats ps'"
      by simp
    from loop_list_fail [OF this, of "write' frag w"] show ?thesis
      by (auto simp add: Cons interleave_def list_next_simps Inr)
  qed
qed

lemma header_ok:
  "list_all formats ps \<Longrightarrow>
   delimit (PStr ''('') (PStr '')'') (\<lambda>w. map_option snd (interleave SEP FMT list_next ps w)) (fill name w) =
     Some (Done (w\<lparr>w_source := w_source w @ [PStr (''\<newline>'' @ pad (w_indent w) @ name), PStr ''('']
                   @ interspersed (PStr '', '') (map fragment ps) @ [PStr '')'']\<rparr>))"
  by (simp add: delimit_def interleave_ok) (simp add: write'_def fill_def)

lemma header_fail:
  assumes "\<not> list_all formats ps"
  shows "\<exists>e w'. delimit (PStr ''('') (PStr '')'') (\<lambda>w. map_option snd (interleave SEP FMT list_next ps w)) (fill name w) =
     Some (Raised e w')"
proof -
  from interleave_fail [OF assms] obtain e w' where
    "map_option snd (interleave SEP FMT list_next ps (write' (PStr ''('') (fill name w))) = Some (Raised e w')"
    by blast
  then show ?thesis
    by (auto simp: delimit_def)
qed

subsection \<open>The whole node\<close>

text \<open>
  When every parameter of the tree formats, the serialisation returns, and the writer
  differs from the one passed in by the fragments of the node only: depth and buffer
  are as before. Otherwise it raises. In both cases it ends.
\<close>

lemma write_ok:
  "params_ok m \<Longrightarrow>
     write_scad_code m w = Some (Done (w\<lparr>w_source := w_source w @ scad_frags (w_indent w) m\<rparr>))"
  "operands_ok ms \<Longrightarrow>
     write_operands ms w = Some (Done (w\<lparr>w_source := w_source w @ operands_frags (w_indent w) ms\<rparr>))"
proof (induction m w and ms w rule: write_scad_code_write_operands.induct)
  case (1 name ps ops writer)
  from "1.prems" have ps: "list_all formats ps"
    by simp
  show ?case
  proof (cases ops)
    case None
    then show ?thesis
      by (simp add: header_ok [OF ps]) (simp add: write'_def)
  next
    case (Some ms)
    with "1.prems" have ms: "operands_ok ms"
      by simp
    note IH = "1.IH" [OF refl header_ok [OF ps] refl Some ms]
    show ?thesis
      by (simp add: header_ok [OF ps] Some block_def IH) (simp add: write'_def fill_def)
  qed
next
  case (2 w)
  show ?case by simp
next
  case (3 operand rest w)
  from "3.prems" have m: "params_ok operand" and ms: "operands_ok rest"
    by simp_all
  note IH1 = "3.IH"(1) [OF m]
  note IH2 = "3.IH"(2) [OF IH1 refl ms]
  show ?case
    by (simp add: IH1 IH2)
qed

lemma write_fail:
  "\<not> params_ok m \<Longrightarrow> \<exists>e w'. write_scad_code m w = Some (Raised e w')"
  "\<not> operands_ok ms \<Longrightarrow> \<exists>e w'. write_operands ms w = Some (Raised e w')"
proof (induction m w and ms w rule: write_scad_code_write_operands.induct)
  case (1 name ps ops writer)
  show ?case
  proof (cases "list_all formats ps")
    case False
    from header_fail [OF this, of name writer] show ?thesis
      by auto
  next
    case True
    with "1.prems" obtain ms where ops: "ops = Some ms" and ms: "\<not> operands_ok ms"
      by (cases ops) simp_all
    let ?h = "writer\<lparr>w_source := w_source writer @ [PStr (''\<newline>'' @ pad (w_indent writer) @ name), PStr ''('']
                   @ interspersed (PStr '', '') (map fragment ps) @ [PStr '')'']\<rparr>"
    let ?b = "(write' (PStr ''{'') ?h)\<lparr>w_indent := w_indent (write' (PStr ''{'') ?h) + 1\<rparr>"
    from "1.IH" [OF refl header_ok [OF True] refl ops ms, of ?b] obtain e w' where
      "write_operands ms ?b = Some (Raised e w')"
      by blast
    then have "block (\<lambda>w'. write_operands ms w') ?h = Some (Raised e w')"
      by (simp add: block_def Let_def)
    then show ?thesis
      by (simp add: header_ok [OF True] ops)
  qed
next
  case (2 w)
  then show ?case by simp
next
  case (3 operand rest w)
  show ?case
  proof (cases "params_ok operand")
    case False
    from "3.IH"(1) [OF this] show ?thesis
      by auto
  next
    case True
    with "3.prems" have "\<not> operands_ok rest"
      by simp
    from "3.IH"(2) [OF write_ok(1) [OF True] refl this] show ?thesis
      by (simp add: write_ok(1) [OF True])
  qed
qed

lemma write_total: "\<exists>r. write_scad_code m w = Some r"
  using write_ok(1) [of m w] write_fail(1) [of m w] by (cases "params_ok m") auto

lemma emitted_ok: "params_ok m \<Longrightarrow> emitted d m = concat (map py_str (scad_frags d m))"
  by (simp add: emitted_def write_ok(1) CodeWriter_def source_def)

lemma operands_text:
  "operands_ok ms \<Longrightarrow> concat (map py_str (operands_frags d ms)) = concat (map (emitted d) ms)"
  by (induction ms) (simp_all add: emitted_ok)

lemma emitted_starts:
  assumes "params_ok m"
  shows "\<exists>rest. emitted d m = ''\<newline>'' @ pad d @ command_name m @ ''('' @ rest"
  using assms by (cases m) (simp add: emitted_ok)

lemma operands_ok_set: "operands_ok ms \<Longrightarrow> m \<in> set ms \<Longrightarrow> params_ok m"
  by (induction ms) auto

subsection \<open>Nodes with operands\<close>

text \<open>
  C2, as stated, at \<^verbatim>\<open>union([cube(1), sphere(2)])\<close> and \<^verbatim>\<open>union([])\<close>: the claim has a
  space between \<^verbatim>\<open>)\<close> and \<^verbatim>\<open>{\<close>. \<^verbatim>\<open>block\<close> writes \<^verbatim>\<open>{\<close> directly after the
  \<^verbatim>\<open>)\<close> of \<^verbatim>\<open>delimit\<close>, so the text has none. And at \<^verbatim>\<open>union([cube(_fn=100)])\<close>,
  where a parameter of the operand does not format: the serialisation raises after
  \<^verbatim>\<open>{\<close>, and no \<^verbatim>\<open>}\<close> matches it.
\<close>

theorem operands_in_braces_counterexample:
  "str_model (union' [cube [PInt 1] [], sphere [PInt 2] []] [] []) =
     Some (Inr ''union(){\<newline>    cube(1);\<newline>    sphere(2);\<newline>}'')
   \<and> str_model (union' [cube [PInt 1] [], sphere [PInt 2] []] [] []) \<noteq>
     Some (Inr ''union() {\<newline>    cube(1);\<newline>    sphere(2);\<newline>}'')
   \<and> str_model (union' [] [] []) = Some (Inr ''union(){\<newline>}'')
   \<and> str_model (union' [] [] []) \<noteq> Some (Inr ''union() {\<newline>}'')
   \<and> write_scad_code (union' [cube [] [(''_fn'', PInt 100)]] [] []) CodeWriter =
       Some (Raised TypeError
         \<lparr>w_source = [PStr ''\<newline>union'', PStr ''('', PStr '')'', PStr ''{'', PStr ''\<newline>    cube'',
                      PStr ''(''],
          w_buffer = [], w_indent = 1\<rparr>)"
  by code_simp

text \<open>
  C2, amended: a node whose operands are present (an empty list included) and whose
  parameters all format, those of every node below it included, is written as its
  statement line \<^verbatim>\<open>name(params)\<close>, then \<^verbatim>\<open>{\<close> with nothing in between, then what
  each operand writes at a depth one greater, in order, then \<^verbatim>\<open>}\<close> on a line of its
  own at the depth of the statement line, with no \<^verbatim>\<open>;\<close> after it; the depth of the
  writer is afterwards what it was. Every operand starts on a new line indented one
  level deeper. \<^verbatim>\<open>union([cube(1), sphere(2)])\<close> and \<^verbatim>\<open>union([])\<close> are converted to
  \<^verbatim>\<open>union(){\<close> \<^verbatim>\<open>    cube(1);\<close> \<^verbatim>\<open>    sphere(2);\<close> \<^verbatim>\<open>}\<close> (four lines) and
  \<^verbatim>\<open>union(){\<close> \<^verbatim>\<open>}\<close> (two lines).
\<close>

theorem operands_in_braces:
  assumes "params_ok (Model name ps (Some ms))"
  shows "(\<exists>w'. write_scad_code (Model name ps (Some ms)) w = Some (Done w')
           \<and> source w' =
               source w @ ''\<newline>'' @ pad (w_indent w) @ name @ ''('' @ params_text ps @ '')''
               @ ''{'' @ concat (map (emitted (w_indent w + 1)) ms)
               @ ''\<newline>'' @ pad (w_indent w) @ ''}''
           \<and> w_indent w' = w_indent w)
         \<and> (\<forall>m \<in> set ms. \<exists>rest.
               emitted (w_indent w + 1) m =
                 ''\<newline>'' @ pad (w_indent w + 1) @ command_name m @ ''('' @ rest)
         \<and> str_model (union' [cube [PInt 1] [], sphere [PInt 2] []] [] []) =
             Some (Inr ''union(){\<newline>    cube(1);\<newline>    sphere(2);\<newline>}'')
         \<and> str_model (union' [] [] []) = Some (Inr ''union(){\<newline>}'')"
proof -
  from assms have ms: "operands_ok ms"
    by simp
  let ?w' = "w\<lparr>w_source := w_source w @ scad_frags (w_indent w) (Model name ps (Some ms))\<rparr>"
  have run: "write_scad_code (Model name ps (Some ms)) w = Some (Done ?w')"
    using assms by (rule write_ok(1))
  have "source ?w' =
           source w @ ''\<newline>'' @ pad (w_indent w) @ name @ ''('' @ params_text ps @ '')''
           @ ''{'' @ concat (map (emitted (w_indent w + 1)) ms)
           @ ''\<newline>'' @ pad (w_indent w) @ ''}''"
    by (simp add: source_def params_text_def operands_text [OF ms])
  moreover have "w_indent ?w' = w_indent w"
    by simp
  moreover have "\<forall>m \<in> set ms. \<exists>rest.
               emitted (w_indent w + 1) m =
                 ''\<newline>'' @ pad (w_indent w + 1) @ command_name m @ ''('' @ rest"
    using emitted_starts operands_ok_set [OF ms] by blast
  moreover have "str_model (union' [cube [PInt 1] [], sphere [PInt 2] []] [] []) =
             Some (Inr ''union(){\<newline>    cube(1);\<newline>    sphere(2);\<newline>}'')"
    by code_simp
  moreover have "str_model (union' [] [] []) = Some (Inr ''union(){\<newline>}'')"
    by code_simp
  ultimately show ?thesis
    using run by blast
qed

text \<open>
  C2 at \<^verbatim>\<open>union([cube(1)])\<close> and a new writer.
\<close>

theorem operands_in_braces_witness:
  "params_ok (Model ''union'' [] (Some [Model ''cube'' [(None, PInt 1)] None]))
   \<and> (\<exists>w'. write_scad_code (Model ''union'' [] (Some [Model ''cube'' [(None, PInt 1)] None])) CodeWriter
           = Some (Done w')
         \<and> source w' = ''\<newline>union(){'' @ emitted 1 (Model ''cube'' [(None, PInt 1)] None) @ ''\<newline>}''
         \<and> w_indent w' = 0)
   \<and> emitted 1 (Model ''cube'' [(None, PInt 1)] None) = ''\<newline>    cube(1);''"
proof -
  have ok: "params_ok (Model ''union'' [] (Some [Model ''cube'' [(None, PInt 1)] None]))"
    by code_simp
  have shown: "emitted 1 (Model ''cube'' [(None, PInt 1)] None) = ''\<newline>    cube(1);''"
    by code_simp
  from operands_in_braces [OF ok, of CodeWriter]
  have "\<exists>w'. write_scad_code (Model ''union'' [] (Some [Model ''cube'' [(None, PInt 1)] None])) CodeWriter
           = Some (Done w')
         \<and> source w' = ''\<newline>union(){'' @ emitted 1 (Model ''cube'' [(None, PInt 1)] None) @ ''\<newline>}''
         \<and> w_indent w' = 0"
    by (simp add: CodeWriter_def source_def pad_def params_text_def del: write_scad_code.simps)
  with ok shown show ?thesis
    by blast
qed

subsection \<open>Leaf nodes\<close>

text \<open>
  C8, as stated, at the leaf \<^verbatim>\<open>cube(_fn=100)\<close>: the parameter does not format, the
  serialisation raises after \<^verbatim>\<open>cube(\<close> and no \<^verbatim>\<open>;\<close> is written. And at the leaf
  \<^verbatim>\<open>cube("{")\<close>: the text has a brace, the one of the parameter.
\<close>

theorem leaf_statement_counterexample:
  "write_scad_code (cube [] [(''_fn'', PInt 100)]) CodeWriter =
     Some (Raised TypeError \<lparr>w_source = [PStr ''\<newline>cube'', PStr ''(''], w_buffer = [], w_indent = 0\<rparr>)
   \<and> str_model (cube [] [(''_fn'', PInt 100)]) = Some (Inl TypeError)
   \<and> str_model (cube [PStr ''{''] []) = Some (Inr ''cube({);'')"
  by code_simp

text \<open>
  C8, amended: the serialisation of a node whose operands are \<^verbatim>\<open>None\<close> and whose
  parameters all format returns, having appended the statement line, \<^verbatim>\<open>(\<close>, the
  formatted parameters with \<^verbatim>\<open>, \<close> between them, \<^verbatim>\<open>)\<close> and \<^verbatim>\<open>;\<close>, and nothing
  else. The text ends with \<^verbatim>\<open>;\<close>; no block is opened and the depth is unchanged;
  every character written is one of the command name, one of a parameter, or a
  newline, space, parenthesis, comma or semicolon, so the text has a brace only where
  the command name or a parameter has one.
\<close>

theorem leaf_statement:
  assumes "map format_parameter ps = map Inr frags"
  shows "\<exists>w' text.
           write_scad_code (Model name ps None) w = Some (Done w')
           \<and> w' = w\<lparr>w_source :=
                 w_source w @ [PStr (''\<newline>'' @ pad (w_indent w) @ name), PStr ''('']
                 @ interspersed (PStr '', '') frags @ [PStr '')'', PStr '';'']\<rparr>
           \<and> source w' = source w @ text
           \<and> text = ''\<newline>'' @ pad (w_indent w) @ name @ ''(''
                 @ concat (map py_str (interspersed (PStr '', '') frags)) @ '');''
           \<and> last text = CHR '';''
           \<and> set text \<subseteq> set name \<union> set (concat (map py_str frags)) \<union> set ''\<newline> (,);''"
proof -
  from formats_all [OF assms] have ps: "list_all formats ps" and frags: "map fragment ps = frags"
    by simp_all
  then have ok: "params_ok (Model name ps None)"
    by simp
  let ?text = "''\<newline>'' @ pad (w_indent w) @ name @ ''(''
                 @ concat (map py_str (interspersed (PStr '', '') frags)) @ '');''"
  have "set (concat (map py_str (interspersed (PStr '', '') frags)))
          \<subseteq> set (concat (map py_str frags)) \<union> set '', ''"
    using set_interspersed [of "PStr '', ''" frags] by auto
  then have chars: "set ?text \<subseteq> set name \<union> set (concat (map py_str frags)) \<union> set ''\<newline> (,);''"
    using set_pad [of "w_indent w"] by auto
  let ?w' = "w\<lparr>w_source := w_source w @ [PStr (''\<newline>'' @ pad (w_indent w) @ name), PStr ''('']
               @ interspersed (PStr '', '') frags @ [PStr '')'', PStr '';'']\<rparr>"
  have run: "write_scad_code (Model name ps None) w = Some (Done ?w')"
    using write_ok(1) [OF ok, of w] by (simp add: frags del: write_scad_code.simps)
  have "source ?w' = source w @ ?text"
    by (simp add: source_def)
  with run chars show ?thesis
    by (intro exI [of _ ?w'] exI [of _ ?text]) simp
qed

text \<open>
  C8 at \<^verbatim>\<open>cube(10, center=True)\<close> and a new writer.
\<close>

theorem leaf_statement_witness:
  "map format_parameter [(None, PInt 10), (Some ''center'', PBool True)] = map Inr [PInt 10, PStr ''center=true'']
   \<and> write_scad_code (Model ''cube'' [(None, PInt 10), (Some ''center'', PBool True)] None) CodeWriter =
     Some (Done \<lparr>w_source = [PStr ''\<newline>cube'', PStr ''('', PInt 10, PStr '', '', PStr ''center=true'',
                               PStr '')'', PStr '';''], w_buffer = [], w_indent = 0\<rparr>)
   \<and> source \<lparr>w_source = [PStr ''\<newline>cube'', PStr ''('', PInt 10, PStr '', '', PStr ''center=true'',
                               PStr '')'', PStr '';''], w_buffer = [], w_indent = 0\<rparr>
       = ''\<newline>cube(10, center=true);''"
proof -
  have formatted: "map format_parameter [(None, PInt 10), (Some ''center'', PBool True)]
      = map Inr [PInt 10, PStr ''center=true'']"
    by code_simp
  have shown: "source \<lparr>w_source = [PStr ''\<newline>cube'', PStr ''('', PInt 10, PStr '', '', PStr ''center=true'',
                               PStr '')'', PStr '';''], w_buffer = [], w_indent = 0\<rparr>
       = ''\<newline>cube(10, center=true);''"
    by code_simp
  from leaf_statement [OF formatted, of "''cube''" CodeWriter]
  have "write_scad_code (Model ''cube'' [(None, PInt 10), (Some ''center'', PBool True)] None) CodeWriter =
     Some (Done \<lparr>w_source = [PStr ''\<newline>cube'', PStr ''('', PInt 10, PStr '', '', PStr ''center=true'',
                               PStr '')'', PStr '';''], w_buffer = [], w_indent = 0\<rparr>)"
    by (simp add: CodeWriter_def pad_def del: write_scad_code.simps)
  with formatted shown show ?thesis
    by blast
qed

subsection \<open>Conversion to text\<close>

text \<open>
  C7, as stated, at the leaf node whose command name is a line break followed by
  \<^verbatim>\<open>x\<close>: the text still begins with a blank line after the newline of \<^verbatim>\<open>fill\<close>
  has been removed.
\<close>

theorem str_strips_newline_counterexample:
  "str_model (Model ''\<newline>x'' [] None) = Some (Inr ''\<newline>x();'')
   \<and> hd ''\<newline>x();'' = CHR 0x0A"
  by code_simp

text \<open>
  C7, amended: the conversion of a root node whose parameters all format returns the
  accumulated source of the writer without its first character, which is the newline
  that \<^verbatim>\<open>fill\<close> put before the first statement; the text therefore begins with the
  command name of the node (and with a blank line only if the command name itself
  begins with a line break).
\<close>

theorem str_strips_newline:
  assumes "params_ok m"
  shows "\<exists>c text rest. write_scad_code m CodeWriter = Some (Done c)
           \<and> str_model m = Some (Inr text)
           \<and> source c = CHR 0x0A # text
           \<and> text = command_name m @ ''('' @ rest"
proof -
  let ?c = "CodeWriter\<lparr>w_source := w_source CodeWriter @ scad_frags (w_indent CodeWriter) m\<rparr>"
  have run: "write_scad_code m CodeWriter = Some (Done ?c)"
    using assms by (rule write_ok(1))
  obtain rest where "source ?c = CHR 0x0A # command_name m @ ''('' @ rest"
    by (cases m) (simp add: source_def CodeWriter_def pad_def)
  with run show ?thesis
    by (simp add: str_model_def)
qed

text \<open>
  C7 at \<^verbatim>\<open>cube(1)\<close>.
\<close>

theorem str_strips_newline_witness:
  "params_ok (cube [PInt 1] [])
   \<and> (\<exists>c. write_scad_code (cube [PInt 1] []) CodeWriter = Some (Done c)
         \<and> source c = CHR 0x0A # ''cube(1);'')
   \<and> str_model (cube [PInt 1] []) = Some (Inr ''cube(1);'')"
proof -
  have ok: "params_ok (cube [PInt 1] [])"
    by code_simp
  have run: "str_model (cube [PInt 1] []) = Some (Inr ''cube(1);'')"
    by code_simp
  from str_strips_newline [OF ok] run show ?thesis
    using ok by auto
qed

subsection \<open>Converting a node twice\<close>

text \<open>
  The serialisation with the node as a state does to the writer what
  \<open>write_scad_code\<close> does on the items that the operands hold, for every node.
\<close>

lemma writer_refines:
  "map_option snd (write_scad_code_node n w) = write_scad_code (model_of n) w"
  "map_option (\<lambda>(visited, rest, r). r) (write_operands_node ns w) = write_operands (models_of ns) w"
proof (induction n w and ns w rule: write_scad_code_node_write_operands_node.induct)
  case (1 name ps ops writer)
  let ?header = "delimit (PStr ''('') (PStr '')'')
             (\<lambda>w. map_option snd
                (interleave
                   (\<lambda>w. Done (write' (PStr '', '') w))
                   (\<lambda>arg w. case format_parameter arg of
                                Inl e \<Rightarrow> Raised e w
                              | Inr text \<Rightarrow> Done (write' text w))
                   list_next ps w))
             (fill name writer)"
  show ?case
  proof (cases ?header)
    case None
    then show ?thesis by simp
  next
    case (Some r)
    show ?thesis
    proof (cases r)
      case (Raised e w')
      with Some show ?thesis by simp
    next
      case (Done w')
      show ?thesis
      proof (cases ops)
        case None
        with Some Done show ?thesis by simp
      next
        case ops: (Some p)
        obtain kind items where p: "p = (kind, items)"
          by (cases p)
        let ?entered = "(write' (PStr ''{'') w')\<lparr>w_indent := w_indent (write' (PStr ''{'') w') + 1\<rparr>"
        have IH: "map_option (\<lambda>(visited, rest, r). r) (write_operands_node items ?entered)
            = write_operands (models_of items) ?entered"
          using "1.IH" [OF refl Some Done] ops p by simp
        show ?thesis
          by (cases "write_operands_node items ?entered")
            (auto simp: Some Done ops p block_def Let_def IH [symmetric] split: res.splits)
      qed
    qed
  qed
next
  case (2 w)
  show ?case by simp
next
  case (3 operand rest w)
  note first = "3.IH"(1) [symmetric]
  show ?case
  proof (cases "write_scad_code_node operand w")
    case None
    then show ?thesis by (simp add: first)
  next
    case (Some p)
    obtain operand' r where p: "p = (operand', r)"
      by (cases p)
    show ?thesis
    proof (cases r)
      case (Raised e w')
      then show ?thesis by (simp add: first Some p)
    next
      case (Done w')
      from "3.IH"(2) [OF Some [unfolded p] ] Done have
        "write_operands (models_of rest) w' = map_option (\<lambda>(visited, rest, r). r) (write_operands_node rest w')"
        by simp
      then show ?thesis
        by (cases "write_operands_node rest w'") (auto simp: first Some p Done)
    qed
  qed
qed

text \<open>
  On a tree whose operands are lists it also returns the node as it was.
\<close>

lemma node_refines:
  "write_scad_code_node (node_of m) w = map_option (Pair (node_of m)) (write_scad_code m w)"
  "\<exists>visited rest.
     write_operands_node (nodes_of ms) w = map_option (\<lambda>r. (visited, rest, r)) (write_operands ms w)
     \<and> visited @ rest = nodes_of ms"
proof (induction m w and ms w rule: write_scad_code_write_operands.induct)
  case (1 name ps ops writer)
  let ?header = "delimit (PStr ''('') (PStr '')'')
             (\<lambda>w. map_option snd
                (interleave
                   (\<lambda>w. Done (write' (PStr '', '') w))
                   (\<lambda>arg w. case format_parameter arg of
                                Inl e \<Rightarrow> Raised e w
                              | Inr text \<Rightarrow> Done (write' text w))
                   list_next ps w))
             (fill name writer)"
  show ?case
  proof (cases ?header)
    case None
    then show ?thesis by simp
  next
    case (Some r)
    show ?thesis
    proof (cases r)
      case (Raised e w')
      with Some show ?thesis by simp
    next
      case (Done w')
      show ?thesis
      proof (cases ops)
        case None
        with Some Done show ?thesis by simp
      next
        case ms: (Some ms)
        let ?entered = "(write' (PStr ''{'') w')\<lparr>w_indent := w_indent (write' (PStr ''{'') w') + 1\<rparr>"
        from "1.IH" [OF refl Some Done ms, of ?entered] obtain visited rest where
          run: "write_operands_node (nodes_of ms) ?entered =
                  map_option (\<lambda>r. (visited, rest, r)) (write_operands ms ?entered)"
          and all: "visited @ rest = nodes_of ms"
          by blast
        show ?thesis
          by (cases "write_operands ms ?entered")
            (simp_all add: Some Done ms run all block_def Let_def split: res.splits)
      qed
    qed
  qed
next
  case (2 w)
  show ?case by simp
next
  case (3 operand rest w)
  show ?case
  proof (cases "write_scad_code operand w")
    case None
    then show ?thesis
      by (intro exI [of _ "[]"] exI [of _ "node_of operand # nodes_of rest"]) (simp add: "3.IH"(1))
  next
    case (Some r)
    show ?thesis
    proof (cases r)
      case (Raised e w')
      with Some show ?thesis
        by (intro exI [of _ "[node_of operand]"] exI [of _ "nodes_of rest"]) (simp add: "3.IH"(1))
    next
      case (Done w')
      from "3.IH"(2) [OF Some Done] obtain visited left where
        run: "write_operands_node (nodes_of rest) w' =
                map_option (\<lambda>r. (visited, left, r)) (write_operands rest w')"
        and all: "visited @ left = nodes_of rest"
        by blast
      show ?thesis
        by (rule exI [of _ "node_of operand # visited"], rule exI [of _ left])
          (cases "write_operands rest w'"; simp add: "3.IH"(1) Some Done run all)
    qed
  qed
qed

lemma str_node_refines: "str_node (node_of m) = map_option (Pair (node_of m)) (str_model m)"
  by (cases "write_scad_code m CodeWriter")
    (simp_all add: str_node_def str_model_def node_refines(1) split: res.splits)

text \<open>
  C4, as stated, at \<^verbatim>\<open>union(iter([cube(1)]))\<close>, a node whose operands are a one-shot
  iterator: the first conversion gives the block with \<^verbatim>\<open>cube(1);\<close> inside and leaves
  the iterator exhausted, the second gives an empty block. The texts differ, and the
  node is not what it was.
\<close>

theorem str_twice_counterexample:
  "str_twice (Node ''union'' [] (Some (PyIterator, [Node ''cube'' [(None, PInt 1)] None]))) =
     Some (Node ''union'' [] (Some (PyIterator, [])),
           Inr ''union(){\<newline>    cube(1);\<newline>}'', Inr ''union(){\<newline>}'')
   \<and> ''union(){\<newline>    cube(1);\<newline>}'' \<noteq> ''union(){\<newline>}''
   \<and> Node ''union'' [] (Some (PyIterator, [])) \<noteq>
       Node ''union'' [] (Some (PyIterator, [Node ''cube'' [(None, PInt 1)] None]))"
  by code_simp

text \<open>
  C4, amended: for every node whose operands are \<^verbatim>\<open>None\<close> or a list, at every level of
  the tree, each of two conversions in a row ends, both with the same result (the same
  text, or the same exception), which is the one \<open>str_model\<close> gives; and a
  serialisation into any writer returns the node as it was, whether it returns or
  raises: only the writer has changed.
\<close>

theorem str_twice_same:
  "(\<exists>r. str_model m = Some r \<and> str_twice (node_of m) = Some (node_of m, r, r))
   \<and> (\<exists>r. write_scad_code m w = Some r
         \<and> write_scad_code_node (node_of m) w = Some (node_of m, r))"
proof -
  obtain r where "write_scad_code m CodeWriter = Some r"
    using write_total by blast
  then obtain r' where "str_model m = Some r'"
    by (cases r) (simp_all add: str_model_def)
  then have "\<exists>r. str_model m = Some r \<and> str_twice (node_of m) = Some (node_of m, r, r)"
    by (simp add: str_twice_def str_node_refines)
  moreover obtain r where "write_scad_code m w = Some r"
    using write_total by blast
  then have "\<exists>r. write_scad_code m w = Some r
         \<and> write_scad_code_node (node_of m) w = Some (node_of m, r)"
    by (simp add: node_refines(1))
  ultimately show ?thesis
    by blast
qed

section \<open>Blocks and the indent depth\<close>

text \<open>
  C5, as stated, at \<^verbatim>\<open>union([cube(_fn=100)])\<close> and a new writer: the parameter of the
  operand raises \<^verbatim>\<open>TypeError\<close> inside the block, and the writer is left at depth 1,
  not 0, without a closing brace.
\<close>

theorem block_indent_counterexample:
  "write_scad_code (union' [cube [] [(''_fn'', PInt 100)]] [] []) CodeWriter =
     Some (Raised TypeError
       \<lparr>w_source = [PStr ''\<newline>union'', PStr ''('', PStr '')'', PStr ''{'', PStr ''\<newline>    cube'', PStr ''(''],
        w_buffer = [], w_indent = 1\<rparr>)
   \<and> w_indent CodeWriter = 0"
  by code_simp

text \<open>
  C5, amended: when the body of a block returns, \<^verbatim>\<open>block\<close> lowers the depth by one,
  once, and then writes \<^verbatim>\<open>}\<close> on a line of its own at that depth; for a body that
  leaves the depth as it found it (as every serialisation does, by the third part),
  that is the depth before the block. When the body raises, the exception goes on
  to the caller, the depth stays as the body left it and no closing brace is written.
\<close>

theorem block_restores_indent:
  "(body (w\<lparr>w_source := w_source w @ [PStr ''{''], w_indent := w_indent w + 1\<rparr>) = Some (Done w1) \<longrightarrow>
      (\<exists>w2. block body w = Some (Done w2)
         \<and> w2 = w1\<lparr>w_source := w_source w1 @ [PStr (''\<newline>'' @ pad (w_indent w1 - 1) @ ''}'')],
                    w_indent := w_indent w1 - 1\<rparr>
         \<and> (w_indent w1 = w_indent w + 1 \<longrightarrow>
                w_indent w2 = w_indent w
                \<and> last (w_source w2) = PStr (''\<newline>'' @ pad (w_indent w) @ ''}''))))
   \<and> (body (w\<lparr>w_source := w_source w @ [PStr ''{''], w_indent := w_indent w + 1\<rparr>) = Some (Raised e w1) \<longrightarrow>
        block body w = Some (Raised e w1))
   \<and> (params_ok m \<longrightarrow> (\<exists>w'. write_scad_code m w = Some (Done w') \<and> w_indent w' = w_indent w))"
proof -
  have "\<exists>w'. write_scad_code m w = Some (Done w') \<and> w_indent w' = w_indent w" if "params_ok m"
    using write_ok(1) [OF that, of w] by simp
  then show ?thesis
    by (simp add: block_def write'_def fill_def Let_def)
qed

text \<open>
  C5 at a body that writes one line, a body that raises, and \<^verbatim>\<open>union([cube()])\<close>.
\<close>

theorem block_restores_indent_witness:
  "block (\<lambda>w. Some (Done (fill ''cube();'' w))) CodeWriter =
     Some (Done \<lparr>w_source = [PStr ''{'', PStr ''\<newline>    cube();'', PStr ''\<newline>}''], w_buffer = [], w_indent = 0\<rparr>)
   \<and> block (\<lambda>w. Some (Raised TypeError w)) CodeWriter =
     Some (Raised TypeError \<lparr>w_source = [PStr ''{''], w_buffer = [], w_indent = 1\<rparr>)
   \<and> params_ok (union' [cube [] []] [] [])
   \<and> (\<exists>w'. write_scad_code (union' [cube [] []] [] []) CodeWriter = Some (Done w') \<and> w_indent w' = 0)"
proof -
  let ?entered = "CodeWriter\<lparr>w_source := w_source CodeWriter @ [PStr ''{''], w_indent := w_indent CodeWriter + 1\<rparr>"
  let ?w1 = "\<lparr>w_source = [PStr ''{'', PStr ''\<newline>    cube();''], w_buffer = [], w_indent = 1\<rparr>"
  have ret: "(\<lambda>w. Some (Done (fill ''cube();'' w))) ?entered = Some (Done ?w1)"
    by (simp add: CodeWriter_def fill_def write'_def pad_def)
  have raised: "(\<lambda>w. Some (Raised TypeError w)) ?entered
      = Some (Raised TypeError \<lparr>w_source = [PStr ''{''], w_buffer = [], w_indent = 1\<rparr>)"
    by (simp add: CodeWriter_def)
  have ok: "params_ok (union' [cube [] []] [] [])"
    by code_simp
  from block_restores_indent [where body = "\<lambda>w. Some (Done (fill ''cube();'' w))" and w = CodeWriter and ?w1.0 = ?w1]
    ret
  have "block (\<lambda>w. Some (Done (fill ''cube();'' w))) CodeWriter =
     Some (Done \<lparr>w_source = [PStr ''{'', PStr ''\<newline>    cube();'', PStr ''\<newline>}''], w_buffer = [], w_indent = 0\<rparr>)"
    by (simp add: CodeWriter_def pad_def)
  moreover
  from block_restores_indent [where body = "\<lambda>w. Some (Raised TypeError w)" and w = CodeWriter and e = TypeError
      and ?w1.0 = "\<lparr>w_source = [PStr ''{''], w_buffer = [], w_indent = 1\<rparr>"] raised
  have "block (\<lambda>w. Some (Raised TypeError w)) CodeWriter =
     Some (Raised TypeError \<lparr>w_source = [PStr ''{''], w_buffer = [], w_indent = 1\<rparr>)"
    by blast
  moreover
  from block_restores_indent [where m = "union' [cube [] []] [] []" and w = CodeWriter] ok
  have "\<exists>w'. write_scad_code (union' [cube [] []] [] []) CodeWriter = Some (Done w') \<and> w_indent w' = 0"
    by (simp add: CodeWriter_def)
  ultimately show ?thesis
    using ok by blast
qed

end
